theory Spec2Isabelle
  imports Main
begin

section \<open>Data model\<close>

text \<open>
  A shallow embedding of the service worker library \<^verbatim>\<open>src/lib/swLib.js\<close> and of its
  configuration in \<^verbatim>\<open>src/sw.js\<close>.

  An intercepted request is identified by its URL and its HTTP verb; a response is a
  snapshot of status, status text and body. The URL is taken without its fragment: the
  cache ignores the fragment, and it reaches neither the path nor the network. \<^verbatim>\<open>Response.clone()\<close> yields an
  independent copy with the same content, so the copy is the same value.
\<close>

record request =
  url :: string
  verb :: string

record response =
  status :: nat
  statusText :: string
  body :: string

definition clone :: "response \<Rightarrow> response" where
  "clone r = r"

text \<open>
  A JavaScript exception value: the name of its class and its message. The template
  literal \<^verbatim>\<open>${error}\<close> renders it as \<^verbatim>\<open>Name: message\<close>, as the name alone when the
  message is empty, and as the message alone when the name is empty.
\<close>

datatype error = JsError string string

fun error_text :: "error \<Rightarrow> string" where
  "error_text (JsError name message) =
     (if message = [] then name
      else if name = [] then message
      else name @ '': '' @ message)"

text \<open>
  The four constants that \<^verbatim>\<open>initServiceWorker\<close> binds from its configuration
  object. \<^verbatim>\<open>strategyMapping\<close> is a JavaScript object used as a dictionary from
  paths, extensions and the key \<^verbatim>\<open>default\<close> to strategy names; reading an absent key
  yields \<^verbatim>\<open>undefined\<close>, which is \<open>None\<close> here.
\<close>

record config =
  cacheName :: string
  precacheFiles :: "string list"
  strategyMapping :: "string \<rightharpoonup> string"
  enableLogging :: bool

text \<open>
  What the browser decides, fixed for the duration of one operation: the URL parser
  (\<^verbatim>\<open>new URL(u).pathname\<close>), the absolute URL that a URL string of the configuration
  stands for in the worker, whether \<^verbatim>\<open>caches.open\<close>, \<^verbatim>\<open>cache.match\<close> and
  \<^verbatim>\<open>cache.put\<close> reject (and with which exception), and what \<^verbatim>\<open>fetch\<close> settles to:
  a rejection, or a fulfilment with a response or with a null value (the case the
  source tests for with \<^verbatim>\<open>if (networkResponse)\<close>).
\<close>

record platform =
  url_pathname :: "string \<Rightarrow> string"
  resolve_url :: "string \<Rightarrow> string"
  caches_open_error :: "string \<Rightarrow> error option"
  cache_match_error :: "request \<Rightarrow> error option"
  cache_put_error :: "request \<Rightarrow> error option"
  network :: "request \<Rightarrow> error + response option"

text \<open>
  The mutable world the worker acts on: the committed entries of every named cache, the
  \<^verbatim>\<open>cache.put\<close> operations that were started and whose promise has not settled yet, the
  requests sent to the network (oldest first), and the lines written to the console.
\<close>

record world =
  caches :: "string \<Rightarrow> request \<rightharpoonup> response"
  pending :: "(string \<times> request \<times> response) list"
  fetched :: "request list"
  console :: "string list"

section \<open>Strategy resolver\<close>

text \<open>
  \<^verbatim>\<open>String.prototype.lastIndexOf\<close> for a one-character search string: the index of the
  last occurrence, or \<open>-1\<close> when there is none. The scan runs left to right and keeps the
  last index seen.
\<close>

fun lastIndexOf_from :: "string \<Rightarrow> char \<Rightarrow> int \<Rightarrow> int \<Rightarrow> int" where
  "lastIndexOf_from [] c i found = found"
| "lastIndexOf_from (x # xs) c i found =
     lastIndexOf_from xs c (i + 1) (if x = c then i else found)"

definition lastIndexOf :: "string \<Rightarrow> char \<Rightarrow> int" where
  "lastIndexOf s c = lastIndexOf_from s c 0 (- 1)"

text \<open>
  \<^verbatim>\<open>String.prototype.substring(start)\<close>: a start below zero is taken as zero and a
  start beyond the length as the length.
\<close>

definition substring :: "string \<Rightarrow> int \<Rightarrow> string" where
  "substring s start = drop (nat (max 0 (min start (int (length s))))) s"

text \<open>
  \<^verbatim>\<open>const extension = pathname.substring(pathname.lastIndexOf('.'))\<close>
\<close>

definition extension :: "string \<Rightarrow> string" where
  "extension pathname = substring pathname (lastIndexOf pathname (CHR ''.''))"

text \<open>
  \<^verbatim>\<open>if (strategyMapping[key]) return strategyMapping[key]\<close>: the value is used only
  when it is truthy. Among strings, only the empty string is falsy; an absent key reads
  as \<^verbatim>\<open>undefined\<close>, which is falsy too.
\<close>

definition truthy_entry :: "(string \<rightharpoonup> string) \<Rightarrow> string \<Rightarrow> string option" where
  "truthy_entry m key = (case m key of None \<Rightarrow> None | Some s \<Rightarrow> if s = [] then None else Some s)"

definition determineStrategy :: "platform \<Rightarrow> config \<Rightarrow> request \<Rightarrow> string" where
  "determineStrategy P cfg req =
     (let pathname = url_pathname P (url req);
          ext = extension pathname
      in case truthy_entry (strategyMapping cfg) pathname of
           Some s \<Rightarrow> s
         | None \<Rightarrow>
             (case truthy_entry (strategyMapping cfg) ext of
                Some s \<Rightarrow> s
              | None \<Rightarrow>
                  (case truthy_entry (strategyMapping cfg) ''default'' of
                     Some s \<Rightarrow> s
                   | None \<Rightarrow> ''network-first'')))"

section \<open>Logging\<close>

definition log :: "config \<Rightarrow> string \<Rightarrow> world \<Rightarrow> world" where
  "log cfg message w =
     (if enableLogging cfg then w\<lparr>console := console w @ [''[Service Worker] '' @ message]\<rparr>
      else w)"

section \<open>Cache store and network\<close>

text \<open>
  \<^verbatim>\<open>await caches.open(name)\<close> yields a handle on the named cache or throws; the handle
  is the name. \<^verbatim>\<open>await cache.match(request)\<close> reads the committed entries.
  \<^verbatim>\<open>cache.put(request, response)\<close> is called without \<^verbatim>\<open>await\<close> in the source: the
  call starts the write and the promise is dropped, so the write joins the pending ones.
  \<^verbatim>\<open>await fetch(request)\<close> contacts the network.
\<close>

definition caches_open :: "platform \<Rightarrow> string \<Rightarrow> error + string" where
  "caches_open P name = (case caches_open_error P name of Some e \<Rightarrow> Inl e | None \<Rightarrow> Inr name)"

definition cache_match :: "platform \<Rightarrow> string \<Rightarrow> request \<Rightarrow> world \<Rightarrow> error + response option" where
  "cache_match P cache req w =
     (case cache_match_error P req of Some e \<Rightarrow> Inl e | None \<Rightarrow> Inr (caches w cache req))"

definition cache_put :: "string \<Rightarrow> request \<Rightarrow> response \<Rightarrow> world \<Rightarrow> world" where
  "cache_put cache req resp w = w\<lparr>pending := pending w @ [(cache, req, resp)]\<rparr>"

definition fetch :: "platform \<Rightarrow> request \<Rightarrow> world \<Rightarrow> (error + response option) \<times> world" where
  "fetch P req w = (network P req, w\<lparr>fetched := fetched w @ [req]\<rparr>)"

text \<open>
  The browser settling the pending writes, oldest first: a write that succeeds replaces
  the entry of its request, a write that rejects leaves the cache as it was, and nobody
  observes the rejection since the promise was dropped.
\<close>

fun commit_puts ::
  "platform \<Rightarrow> (string \<times> request \<times> response) list \<Rightarrow> (string \<Rightarrow> request \<rightharpoonup> response)
     \<Rightarrow> (string \<Rightarrow> request \<rightharpoonup> response)" where
  "commit_puts P [] cs = cs"
| "commit_puts P ((cache, req, resp) # ps) cs =
     commit_puts P ps
       (if cache_put_error P req = None then cs(cache := (cs cache)(req \<mapsto> resp)) else cs)"

definition settle_puts :: "platform \<Rightarrow> world \<Rightarrow> world" where
  "settle_puts P w = w\<lparr>caches := commit_puts P (pending w) (caches w), pending := []\<rparr>"

section \<open>Strategy executors\<close>

text \<open>
  \<^verbatim>\<open>new Response('Offline', { status: 503, statusText: 'Service Unavailable' })\<close>
\<close>

definition offline :: response where
  "offline = \<lparr>status = 503, statusText = ''Service Unavailable'', body = ''Offline''\<rparr>"

text \<open>
  An \<^verbatim>\<open>async\<close> function settles to a value (\<open>Inr\<close>) or rejects with an exception
  (\<open>Inl\<close>). In \<^verbatim>\<open>fetchAndCache\<close> the cache is opened before the \<^verbatim>\<open>try\<close> block, so a
  failure to open rejects; the \<^verbatim>\<open>catch\<close> block covers the fetch and the null test.
\<close>

definition fetchAndCache :: "platform \<Rightarrow> config \<Rightarrow> request \<Rightarrow> world \<Rightarrow> (error + response) \<times> world" where
  "fetchAndCache P cfg req w =
     (case caches_open P (cacheName cfg) of
        Inl e \<Rightarrow> (Inl e, w)
      | Inr cache \<Rightarrow>
          (case fetch P req w of
             (Inr (Some networkResponse), w1) \<Rightarrow>
               (Inr networkResponse,
                log cfg (''Fetched and cached: '' @ url req)
                  (cache_put cache req (clone networkResponse) w1))
           | (Inr None, w1) \<Rightarrow>
               (Inr offline,
                log cfg (''Fetch failed: '' @ error_text (JsError ''Error'' ''Network response was null'')) w1)
           | (Inl e, w1) \<Rightarrow>
               (Inr offline, log cfg (''Fetch failed: '' @ error_text e) w1)))"

text \<open>
  \<^verbatim>\<open>cacheFirst\<close>: the cache is opened before the \<^verbatim>\<open>try\<close> block; inside it, a hit is
  returned, and both a miss (the thrown \<^verbatim>\<open>No cache match\<close>) and a rejected lookup land
  in the \<^verbatim>\<open>catch\<close> block, which logs and delegates to \<^verbatim>\<open>fetchAndCache\<close>.
\<close>

definition cacheFirst :: "platform \<Rightarrow> config \<Rightarrow> request \<Rightarrow> world \<Rightarrow> (error + response) \<times> world" where
  "cacheFirst P cfg req w =
     (case caches_open P (cacheName cfg) of
        Inl e \<Rightarrow> (Inl e, w)
      | Inr cache \<Rightarrow>
          (case cache_match P cache req w of
             Inr (Some cachedResponse) \<Rightarrow>
               (Inr cachedResponse, log cfg (''Serving from cache: '' @ url req) w)
           | Inr None \<Rightarrow>
               fetchAndCache P cfg req (log cfg (''Cache miss, fetching from network: '' @ url req) w)
           | Inl e \<Rightarrow>
               fetchAndCache P cfg req (log cfg (''Cache miss, fetching from network: '' @ url req) w)))"

text \<open>
  \<^verbatim>\<open>networkFirst\<close>: the cache is opened before the \<^verbatim>\<open>try\<close> block. A network response
  is logged, its copy handed to \<^verbatim>\<open>cache.put\<close>, and returned. A rejected fetch or a
  null response lands in the \<^verbatim>\<open>catch\<close> block, whose own \<^verbatim>\<open>await cache.match\<close> is not
  guarded.
\<close>

definition networkFirst_catch :: "platform \<Rightarrow> config \<Rightarrow> string \<Rightarrow> request \<Rightarrow> world \<Rightarrow> (error + response) \<times> world" where
  "networkFirst_catch P cfg cache req w =
     (let w1 = log cfg (''Network request failed, trying cache: '' @ url req) w
      in case cache_match P cache req w1 of
           Inl e \<Rightarrow> (Inl e, w1)
         | Inr (Some cachedResponse) \<Rightarrow> (Inr cachedResponse, w1)
         | Inr None \<Rightarrow> (Inr offline, w1))"

definition networkFirst :: "platform \<Rightarrow> config \<Rightarrow> request \<Rightarrow> world \<Rightarrow> (error + response) \<times> world" where
  "networkFirst P cfg req w =
     (case caches_open P (cacheName cfg) of
        Inl e \<Rightarrow> (Inl e, w)
      | Inr cache \<Rightarrow>
          (case fetch P req w of
             (Inr (Some networkResponse), w1) \<Rightarrow>
               (Inr networkResponse,
                cache_put cache req (clone networkResponse)
                  (log cfg (''Network request successful: '' @ url req) w1))
           | (Inr None, w1) \<Rightarrow> networkFirst_catch P cfg cache req w1
           | (Inl e, w1) \<Rightarrow> networkFirst_catch P cfg cache req w1))"

section \<open>Pre-caching\<close>

text \<open>
  \<^verbatim>\<open>cache.addAll(urls)\<close> is the browser's: it builds a GET request for the absolute URL
  of every URL string, fetches them all, and rejects without storing anything unless every fetch yields a response
  with a status in the range 200 to 299; otherwise it stores every response.
\<close>

definition request_of :: "platform \<Rightarrow> string \<Rightarrow> request" where
  "request_of P u = \<lparr>url = resolve_url P u, verb = ''GET''\<rparr>"

definition ok :: "response \<Rightarrow> bool" where
  "ok r = (200 \<le> status r \<and> status r \<le> 299)"

text \<open>A resource is reachable when its fetch yields a response with such a status.\<close>

definition reachable :: "platform \<Rightarrow> request \<Rightarrow> bool" where
  "reachable P q = (case network P q of Inr (Some r) \<Rightarrow> ok r | Inr None \<Rightarrow> False | Inl e \<Rightarrow> False)"

fun fetch_each :: "platform \<Rightarrow> request list \<Rightarrow> error + (request \<times> response) list" where
  "fetch_each P [] = Inr []"
| "fetch_each P (q # qs) =
     (case network P q of
        Inl e \<Rightarrow> Inl e
      | Inr None \<Rightarrow> Inl (JsError ''TypeError'' ''Request failed'')
      | Inr (Some r) \<Rightarrow>
          if ok r then (case fetch_each P qs of Inl e \<Rightarrow> Inl e | Inr es \<Rightarrow> Inr ((q, r) # es))
          else Inl (JsError ''TypeError'' ''Request failed''))"

fun store_all :: "(request \<times> response) list \<Rightarrow> (request \<rightharpoonup> response) \<Rightarrow> (request \<rightharpoonup> response)" where
  "store_all [] m = m"
| "store_all ((q, r) # es) m = store_all es (m(q \<mapsto> r))"

definition addAll :: "platform \<Rightarrow> string \<Rightarrow> string list \<Rightarrow> world \<Rightarrow> (error + unit) \<times> world" where
  "addAll P cache urls w =
     (let reqs = map (request_of P) urls;
          w1 = w\<lparr>fetched := fetched w @ reqs\<rparr>
      in case fetch_each P reqs of
           Inl e \<Rightarrow> (Inl e, w1)
         | Inr es \<Rightarrow> (Inr (), w1\<lparr>caches := (caches w1)(cache := store_all es (caches w1 cache))\<rparr>))"

text \<open>
  \<^verbatim>\<open>preCache\<close>: opening the cache and \<^verbatim>\<open>addAll\<close> are both awaited inside the
  \<^verbatim>\<open>try\<close> block; the \<^verbatim>\<open>catch\<close> block logs and returns normally, so the promise of
  \<^verbatim>\<open>preCache\<close> is fulfilled on every path.
\<close>

definition preCache :: "platform \<Rightarrow> config \<Rightarrow> world \<Rightarrow> (error + unit) \<times> world" where
  "preCache P cfg w =
     (case caches_open P (cacheName cfg) of
        Inl e \<Rightarrow> (Inr (), log cfg (''Pre-caching failed: '' @ error_text e) w)
      | Inr cache \<Rightarrow>
          (case addAll P cache (precacheFiles cfg) w of
             (Inr u, w1) \<Rightarrow> (Inr (), log cfg ''Pre-caching completed successfully.'' w1)
           | (Inl e, w1) \<Rightarrow> (Inr (), log cfg (''Pre-caching failed: '' @ error_text e) w1)))"

section \<open>Lifecycle listeners\<close>

text \<open>
  The \<^verbatim>\<open>fetch\<close> listener resolves the strategy, logs it, and answers the event with
  the promise of the chosen executor, or with the promise of a plain \<^verbatim>\<open>fetch\<close> for any
  other strategy name. The promise handed to \<^verbatim>\<open>respondWith\<close> settles to a response,
  to a null value (plain fetch only), or rejects.
\<close>

definition respondWith :: "(error + response) \<times> world \<Rightarrow> (error + response option) \<times> world" where
  "respondWith settled = (map_sum id Some (fst settled), snd settled)"

definition fetch_listener :: "platform \<Rightarrow> config \<Rightarrow> request \<Rightarrow> world \<Rightarrow> (error + response option) \<times> world" where
  "fetch_listener P cfg req w =
     (let strategy = determineStrategy P cfg req;
          w1 = log cfg (''Fetch event for '' @ url req @ '' using strategy: '' @ strategy) w
      in if strategy = ''cache-first'' then respondWith (cacheFirst P cfg req w1)
         else if strategy = ''network-first'' then respondWith (networkFirst P cfg req w1)
         else fetch P req w1)"

text \<open>
  The worker as the browser sees it: its lifecycle phase, the promises its listeners
  passed to \<^verbatim>\<open>event.waitUntil\<close> that have not settled yet, the flag set by
  \<^verbatim>\<open>self.skipWaiting()\<close>, and whether the open pages are controlled by this worker
  (the effect of \<^verbatim>\<open>self.clients.claim()\<close>).
\<close>

datatype phase = Parsed | Installing | Installed | Activating | Activated

datatype promise = PreCachePromise | ClaimPromise

record worker =
  phase :: phase
  lifetime :: "promise list"
  skip_waiting :: bool
  claimed :: bool
  sw_world :: world

text \<open>
  The \<^verbatim>\<open>install\<close> listener logs, passes the promise of \<^verbatim>\<open>preCache()\<close> to
  \<^verbatim>\<open>event.waitUntil\<close>, and calls \<^verbatim>\<open>self.skipWaiting()\<close>. The \<^verbatim>\<open>activate\<close> listener
  logs and passes the promise of \<^verbatim>\<open>self.clients.claim()\<close> to \<^verbatim>\<open>event.waitUntil\<close>.
\<close>

definition install_listener :: "config \<Rightarrow> worker \<Rightarrow> worker" where
  "install_listener cfg wk =
     wk\<lparr>sw_world := log cfg ''Install event triggered.'' (sw_world wk),
        lifetime := lifetime wk @ [PreCachePromise],
        skip_waiting := True\<rparr>"

definition activate_listener :: "config \<Rightarrow> worker \<Rightarrow> worker" where
  "activate_listener cfg wk =
     wk\<lparr>sw_world := log cfg ''Activate event triggered.'' (sw_world wk),
        lifetime := lifetime wk @ [ClaimPromise]\<rparr>"

text \<open>
  The browser's side of the lifecycle, one event at a time; an event that is not
  enabled leaves the worker as it is.
  \<^item> \<open>DispatchInstall\<close>: a parsed worker starts installing and its \<^verbatim>\<open>install\<close>
    listener runs.
  \<^item> \<open>Settle\<close>: the oldest promise passed to \<^verbatim>\<open>waitUntil\<close> settles. For the promise
    of \<^verbatim>\<open>preCache()\<close> this is when the body of \<^verbatim>\<open>preCache\<close> has run; for the promise
    of \<^verbatim>\<open>clients.claim()\<close> this is when the open pages are controlled.
  \<^item> \<open>FinishInstall\<close>: installation ends once no such promise is outstanding.
  \<^item> \<open>DispatchActivate\<close>: an installed worker starts activating, and its
    \<^verbatim>\<open>activate\<close> listener runs, when its skip-waiting flag is set or no older worker
    controls a page (\<open>older_gone\<close>).
  \<^item> \<open>FinishActivate\<close>: activation ends once no such promise is outstanding.
  \<^item> \<open>PageRequest\<close>: an open page issues a request; it reaches the \<^verbatim>\<open>fetch\<close>
    listener when the page is controlled by this worker, and the network otherwise.
\<close>

datatype lifecycle_event =
    DispatchInstall
  | Settle
  | FinishInstall
  | DispatchActivate bool
  | FinishActivate
  | PageRequest request

definition settle_promise :: "platform \<Rightarrow> config \<Rightarrow> promise \<Rightarrow> worker \<Rightarrow> worker" where
  "settle_promise P cfg p wk =
     (case p of
        PreCachePromise \<Rightarrow>
          wk\<lparr>sw_world := snd (preCache P cfg (sw_world wk))\<rparr>
      | ClaimPromise \<Rightarrow> wk\<lparr>claimed := True\<rparr>)"

fun lifecycle_step :: "platform \<Rightarrow> config \<Rightarrow> worker \<Rightarrow> lifecycle_event \<Rightarrow> worker" where
  "lifecycle_step P cfg wk DispatchInstall =
     (if phase wk = Parsed then install_listener cfg (wk\<lparr>phase := Installing\<rparr>) else wk)"
| "lifecycle_step P cfg wk Settle =
     (case lifetime wk of
        [] \<Rightarrow> wk
      | p # ps \<Rightarrow> settle_promise P cfg p (wk\<lparr>lifetime := ps\<rparr>))"
| "lifecycle_step P cfg wk FinishInstall =
     (if phase wk = Installing \<and> lifetime wk = [] then wk\<lparr>phase := Installed\<rparr> else wk)"
| "lifecycle_step P cfg wk (DispatchActivate older_gone) =
     (if phase wk = Installed \<and> (skip_waiting wk \<or> older_gone)
      then activate_listener cfg (wk\<lparr>phase := Activating\<rparr>) else wk)"
| "lifecycle_step P cfg wk FinishActivate =
     (if phase wk = Activating \<and> lifetime wk = [] then wk\<lparr>phase := Activated\<rparr> else wk)"
| "lifecycle_step P cfg wk (PageRequest req) =
     (if claimed wk then wk\<lparr>sw_world := snd (fetch_listener P cfg req (sw_world wk))\<rparr>
      else wk\<lparr>sw_world := snd (fetch P req (sw_world wk))\<rparr>)"

definition new_worker :: "world \<Rightarrow> worker" where
  "new_worker w0 =
     \<lparr>phase = Parsed, lifetime = [], skip_waiting = False, claimed = False, sw_world = w0\<rparr>"

definition lifecycle_run :: "platform \<Rightarrow> config \<Rightarrow> lifecycle_event list \<Rightarrow> world \<Rightarrow> worker" where
  "lifecycle_run P cfg evs w0 = foldl (lifecycle_step P cfg) (new_worker w0) evs"

text \<open>
  Two facts about the events of a run. The promise of \<^verbatim>\<open>preCache()\<close> settled during
  installation: at some point the worker was installing, that promise was the one
  outstanding promise, and the next event settled it, which ran the body of
  \<^verbatim>\<open>preCache\<close> on the world. The promise of \<^verbatim>\<open>clients.claim()\<close> settled during
  activation, likewise.
\<close>

definition precache_settled_in :: "platform \<Rightarrow> config \<Rightarrow> world \<Rightarrow> lifecycle_event list \<Rightarrow> bool" where
  "precache_settled_in P cfg w0 evs =
     (\<exists>pre post. evs = pre @ Settle # post
        \<and> phase (lifecycle_run P cfg pre w0) = Installing
        \<and> lifetime (lifecycle_run P cfg pre w0) = [PreCachePromise]
        \<and> sw_world (lifecycle_run P cfg (pre @ [Settle]) w0)
            = snd (preCache P cfg (sw_world (lifecycle_run P cfg pre w0))))"

definition claim_settled_in :: "platform \<Rightarrow> config \<Rightarrow> world \<Rightarrow> lifecycle_event list \<Rightarrow> bool" where
  "claim_settled_in P cfg w0 evs =
     (\<exists>pre post. evs = pre @ Settle # post
        \<and> phase (lifecycle_run P cfg pre w0) = Activating
        \<and> lifetime (lifecycle_run P cfg pre w0) = [ClaimPromise])"

section \<open>The deployed configuration and sample environments\<close>

text \<open>The configuration that \<^verbatim>\<open>src/sw.js\<close> passes to \<^verbatim>\<open>initServiceWorker\<close>.\<close>

definition sw_config :: config where
  "sw_config =
     \<lparr>cacheName = ''locky-1'',
      precacheFiles = [''/index.html'', ''/styles.css'', ''/app.js'', ''/images/logo.png''],
      strategyMapping =
        [''default'' \<mapsto> ''network-first'',
         ''/index.html'' \<mapsto> ''cache-first'',
         ''.js'' \<mapsto> ''cache-first'',
         ''.css'' \<mapsto> ''cache-first'',
         ''.png'' \<mapsto> ''cache-first''],
      enableLogging = True\<rparr>"

text \<open>
  A URL parser for the sample environments: the path of
  \<^verbatim>\<open>scheme://host/path?query#fragment\<close> is what follows the host, up to the query or
  the fragment. The worker of the sample environments is served from
  \<^verbatim>\<open>https://locky.example\<close>, which is what a URL string that starts with a slash is
  resolved against.
\<close>

definition sample_resolve :: "string \<Rightarrow> string" where
  "sample_resolve u = ''https://locky.example'' @ u"

definition sample_pathname :: "string \<Rightarrow> string" where
  "sample_pathname u =
     takeWhile (\<lambda>c. c \<noteq> CHR ''?'' \<and> c \<noteq> CHR ''#'')
       (dropWhile (\<lambda>c. c \<noteq> CHR ''/'') (drop 2 (dropWhile (\<lambda>c. c \<noteq> CHR ''/'') u)))"

text \<open>
  Sample environments: a healthy one whose network answers every request with the same
  page, one whose network is down, one whose cache storage cannot be opened, one whose
  network is down and whose cache lookups fail, and one whose cache writes fail.
\<close>

definition page :: response where
  "page = \<lparr>status = 200, statusText = ''OK'', body = ''<h1>Locky</h1>''\<rparr>"

definition stale_page :: response where
  "stale_page = \<lparr>status = 200, statusText = ''OK'', body = ''<h1>Old</h1>''\<rparr>"

definition online :: platform where
  "online =
     \<lparr>url_pathname = sample_pathname,
      resolve_url = sample_resolve,
      caches_open_error = (\<lambda>name. None),
      cache_match_error = (\<lambda>req. None),
      cache_put_error = (\<lambda>req. None),
      network = (\<lambda>req. Inr (Some page))\<rparr>"

definition network_down :: platform where
  "network_down = online\<lparr>network := (\<lambda>req. Inl (JsError ''TypeError'' ''Failed to fetch''))\<rparr>"

definition storage_denied :: platform where
  "storage_denied =
     online\<lparr>caches_open_error := (\<lambda>name. Some (JsError ''SecurityError'' ''The operation is insecure.''))\<rparr>"

definition lookup_broken :: platform where
  "lookup_broken =
     network_down\<lparr>cache_match_error := (\<lambda>req. Some (JsError ''UnknownError'' ''Internal error.''))\<rparr>"

definition write_denied :: platform where
  "write_denied =
     online\<lparr>cache_put_error := (\<lambda>req. Some (JsError ''QuotaExceededError'' ''Quota exceeded.''))\<rparr>"

definition app_js :: request where
  "app_js = \<lparr>url = ''https://locky.example/app.js'', verb = ''GET''\<rparr>"

definition about :: request where
  "about = \<lparr>url = ''https://locky.example/about'', verb = ''GET''\<rparr>"

definition fresh_world :: world where
  "fresh_world = \<lparr>caches = (\<lambda>name. Map.empty), pending = [], fetched = [], console = []\<rparr>"

text \<open>A world whose cache \<^verbatim>\<open>locky-1\<close> holds an older copy of \<^verbatim>\<open>/app.js\<close>.\<close>

definition stale_world :: world where
  "stale_world = fresh_world\<lparr>caches := (\<lambda>name. if name = ''locky-1'' then [app_js \<mapsto> stale_page] else Map.empty)\<rparr>"

text \<open>
  The deployed configuration with one more rule, under the empty key: the extension of a
  path without a dot, as the specification defines the extension.
\<close>

definition extensionless_config :: config where
  "extensionless_config =
     sw_config\<lparr>strategyMapping := (strategyMapping sw_config)('''' \<mapsto> ''cache-first'')\<rparr>"

section \<open>The resolver as the specification words it\<close>

text \<open>
  Following the specification's words, for comparison with \<open>extension\<close> and
  \<open>determineStrategy\<close>: the extension is the substring from the last dot to the end of
  the path, and empty if the path has no dot; the strategy is the one mapped to the exact
  path if that key is configured, otherwise the one mapped to the extension if that key
  is configured, otherwise the configured default, otherwise network-first.
\<close>

definition spec_extension :: "string \<Rightarrow> string" where
  "spec_extension pathname =
     (if CHR ''.'' \<in> set pathname
      then CHR ''.'' # rev (takeWhile (\<lambda>c. c \<noteq> CHR ''.'') (rev pathname))
      else [])"

definition spec_resolve :: "platform \<Rightarrow> config \<Rightarrow> request \<Rightarrow> string" where
  "spec_resolve P cfg req =
     (let pathname = url_pathname P (url req)
      in case strategyMapping cfg pathname of
           Some s \<Rightarrow> s
         | None \<Rightarrow>
             (case strategyMapping cfg (spec_extension pathname) of
                Some s \<Rightarrow> s
              | None \<Rightarrow>
                  (case strategyMapping cfg ''default'' of
                     Some s \<Rightarrow> s
                   | None \<Rightarrow> ''network-first'')))"

section \<open>The strategy resolver: extension and precedence\<close>

lemma lastIndexOf_from_absent:
  "c \<notin> set s \<Longrightarrow> lastIndexOf_from s c i found = found"
  by (induction s arbitrary: i found) auto

lemma lastIndexOf_from_last:
  "c \<notin> set suf \<Longrightarrow>
   lastIndexOf_from (pre @ c # suf) c i found = i + int (length pre)"
  by (induction pre arbitrary: i found) (auto simp: lastIndexOf_from_absent)

lemma extension_from_last_dot:
  "CHR ''.'' \<notin> set suf \<Longrightarrow> extension (pre @ CHR ''.'' # suf) = CHR ''.'' # suf"
  by (simp add: extension_def lastIndexOf_def substring_def lastIndexOf_from_last)

lemma extension_no_dot:
  "CHR ''.'' \<notin> set pathname \<Longrightarrow> extension pathname = pathname"
  by (simp add: extension_def lastIndexOf_def substring_def lastIndexOf_from_absent)

text \<open>
  Claim C9. The claim says that the extracted extension is the substring from the last
  dot to the end of the path, and the empty string when the path has no dot. The first
  half is \<open>extension_from_last_dot\<close>. The second half fails: without a dot
  \<^verbatim>\<open>lastIndexOf\<close> yields \<open>-1\<close>, which \<^verbatim>\<open>substring\<close> takes as \<open>0\<close>, so the
  extension is the whole path (\<open>extension_no_dot\<close>). For the request
  \<^verbatim>\<open>https://locky.example/about\<close> the extracted extension is \<^verbatim>\<open>/about\<close>.
\<close>

theorem extension_about_is_whole_path:
  "extension (url_pathname online (url about)) = ''/about''"
  by (simp add: extension_def lastIndexOf_def substring_def online_def about_def
      sample_pathname_def)

lemma determineStrategy_cascade:
  assumes "\<forall>key. strategyMapping cfg key \<noteq> Some []"
  shows "determineStrategy P cfg req =
     (case strategyMapping cfg (url_pathname P (url req)) of
        Some s \<Rightarrow> s
      | None \<Rightarrow>
          (case strategyMapping cfg (extension (url_pathname P (url req))) of
             Some s \<Rightarrow> s
           | None \<Rightarrow>
               (case strategyMapping cfg ''default'' of
                  Some s \<Rightarrow> s
                | None \<Rightarrow> ''network-first'')))"
proof -
  have "truthy_entry (strategyMapping cfg) key = strategyMapping cfg key" for key
    using assms by (cases "strategyMapping cfg key") (auto simp: truthy_entry_def)
  then show ?thesis
    by (simp add: determineStrategy_def Let_def split: option.splits)
qed

lemma spec_extension_from_last_dot:
  "CHR ''.'' \<notin> set suf \<Longrightarrow> spec_extension (pre @ CHR ''.'' # suf) = CHR ''.'' # suf"
proof -
  assume none: "CHR ''.'' \<notin> set suf"
  then have all: "takeWhile (\<lambda>c. c \<noteq> CHR ''.'') (rev suf) = rev suf"
    by (auto simp: takeWhile_eq_all_conv)
  show ?thesis
    by (simp add: spec_extension_def takeWhile_tail all)
qed

lemma extension_is_spec_extension:
  assumes "CHR ''.'' \<in> set pathname"
  shows "extension pathname = spec_extension pathname"
proof -
  from assms obtain pre suf where "pathname = pre @ CHR ''.'' # suf" "CHR ''.'' \<notin> set suf"
    using split_list_last by fastforce
  then show ?thesis
    by (simp add: extension_from_last_dot spec_extension_from_last_dot)
qed

text \<open>
  Where strategy names are non-empty, the code resolves every request as the
  specification words it, but for a path without a dot under a configuration that has a
  rule for the empty extension.
\<close>

lemma determineStrategy_is_spec_resolve:
  assumes names: "\<forall>key. strategyMapping cfg key \<noteq> Some []"
    and scope: "CHR ''.'' \<in> set (url_pathname P (url req)) \<or> strategyMapping cfg [] = None"
  shows "determineStrategy P cfg req = spec_resolve P cfg req"
proof (cases "CHR ''.'' \<in> set (url_pathname P (url req))")
  case True
  then show ?thesis
    by (simp add: determineStrategy_cascade [OF names] spec_resolve_def Let_def
        extension_is_spec_extension cong: option.case_cong)
next
  case False
  with scope have "strategyMapping cfg [] = None"
    by simp
  with False show ?thesis
    by (simp add: determineStrategy_cascade [OF names] spec_resolve_def Let_def
        extension_no_dot spec_extension_def split: option.splits)
qed

text \<open>
  Claim C3. The claim's cascade is \<open>spec_resolve\<close>: exact path, then extension, then
  default, then network-first. The code follows it for every path with a dot
  (\<open>determineStrategy_is_spec_resolve\<close>). For a path without a dot the code takes the
  whole path as the extension (Claim C9), so the rule configured for the empty
  extension is never applied: for \<^verbatim>\<open>https://locky.example/about\<close> and the deployed
  configuration extended with such a rule, the code resolves to the default,
  \<^verbatim>\<open>network-first\<close>, where the claim's cascade yields the rule, \<^verbatim>\<open>cache-first\<close>. For
  \<^verbatim>\<open>https://locky.example/app.js\<close> both apply the rule of the extension \<^verbatim>\<open>.js\<close>.
\<close>

theorem determineStrategy_skips_empty_extension_rule:
  "strategyMapping extensionless_config (url_pathname online (url about)) = None
   \<and> strategyMapping extensionless_config (spec_extension (url_pathname online (url about)))
       = Some ''cache-first''
   \<and> spec_resolve online extensionless_config about = ''cache-first''
   \<and> determineStrategy online extensionless_config about = ''network-first''
   \<and> spec_resolve online extensionless_config app_js = ''cache-first''
   \<and> determineStrategy online extensionless_config app_js = ''cache-first''"
proof -
  have path: "url_pathname online (url about) = ''/about''"
    "url_pathname online (url app_js) = ''/app.js''"
    by (simp_all add: online_def about_def app_js_def sample_pathname_def)
  have ext: "extension ''/about'' = ''/about''" "spec_extension ''/about'' = []"
    "extension ''/app.js'' = ''.js''" "spec_extension ''/app.js'' = ''.js''"
    by (simp_all add: extension_def lastIndexOf_def substring_def spec_extension_def)
  show ?thesis
    by (simp add: path ext determineStrategy_def spec_resolve_def truthy_entry_def
        extensionless_config_def sw_config_def)
qed

section \<open>The executors\<close>

lemma log_keeps [simp]:
  "caches (log cfg m w) = caches w"
  "pending (log cfg m w) = pending w"
  "fetched (log cfg m w) = fetched w"
  by (simp_all add: log_def)

lemmas executor_defs =
  cacheFirst_def networkFirst_def networkFirst_catch_def fetchAndCache_def
  caches_open_def cache_match_def cache_put_def fetch_def clone_def Let_def

lemma commit_puts_append:
  "commit_puts P (ps @ qs) cs = commit_puts P qs (commit_puts P ps cs)"
  by (induction ps arbitrary: cs) auto

lemma commit_puts_newest:
  "cache_put_error P req = None \<Longrightarrow>
   commit_puts P (ps @ [(cache, req, r)]) cs cache req = Some r"
  by (simp add: commit_puts_append)

text \<open>
  Claim C2. The claim says that the executors return a response for every request and
  that a failure to open the cache, a failed lookup and a failed write are all recovered
  locally. The executors open the cache before their \<^verbatim>\<open>try\<close> block, so where the
  cache storage cannot be opened both reject with the exception of \<^verbatim>\<open>caches.open\<close>.
\<close>

theorem executors_reject_when_cache_cannot_open:
  "fst (cacheFirst storage_denied sw_config app_js fresh_world)
     = Inl (JsError ''SecurityError'' ''The operation is insecure.'')
   \<and> fst (networkFirst storage_denied sw_config app_js fresh_world)
     = Inl (JsError ''SecurityError'' ''The operation is insecure.'')"
  by (simp add: executor_defs storage_denied_def online_def)

text \<open>
  Claim C2, as amended. \<^verbatim>\<open>cacheFirst\<close> settles to a response exactly when the cache
  can be opened: a failed lookup is treated as a miss. \<^verbatim>\<open>networkFirst\<close> settles to a
  response exactly when the cache can be opened and either the network yields a
  response or the fallback lookup does not fail. Whether the cache write fails never
  changes what either executor settles to.
\<close>

theorem executors_settle_to_response_iff:
  "((\<exists>r. fst (cacheFirst P cfg req w) = Inr r) \<longleftrightarrow> caches_open_error P (cacheName cfg) = None)
   \<and> ((\<exists>r. fst (networkFirst P cfg req w) = Inr r) \<longleftrightarrow>
        caches_open_error P (cacheName cfg) = None
        \<and> ((\<exists>r. network P req = Inr (Some r)) \<or> cache_match_error P req = None))
   \<and> fst (cacheFirst (P\<lparr>cache_put_error := f\<rparr>) cfg req w) = fst (cacheFirst P cfg req w)
   \<and> fst (networkFirst (P\<lparr>cache_put_error := f\<rparr>) cfg req w) = fst (networkFirst P cfg req w)"
  by (auto simp: executor_defs split: option.splits sum.splits)

lemma networkFirst_contacts_iff_opens:
  "fetched (snd (networkFirst P cfg req w)) \<noteq> fetched w
     \<longleftrightarrow> caches_open_error P (cacheName cfg) = None"
  by (auto simp: executor_defs split: option.splits sum.splits)

text \<open>
  Claim C4. The claim says that \<^verbatim>\<open>networkFirst\<close>, when its fetch fails, returns the
  cached response if present and the synthetic response otherwise. The
  \<^verbatim>\<open>await cache.match\<close> of its \<^verbatim>\<open>catch\<close> block is not guarded: with the network down,
  an older copy in the cache and a lookup that rejects, the executor rejects with the
  exception of the lookup, and the requester gets neither the copy nor the synthetic
  response.
\<close>

theorem networkFirst_rejects_when_lookup_fails:
  "network lookup_broken app_js = Inl (JsError ''TypeError'' ''Failed to fetch'')
   \<and> caches stale_world ''locky-1'' app_js = Some stale_page
   \<and> fst (networkFirst lookup_broken sw_config app_js stale_world)
       = Inl (JsError ''UnknownError'' ''Internal error.'')"
  by (simp add: executor_defs lookup_broken_def network_down_def online_def sw_config_def
      stale_world_def fresh_world_def)

text \<open>
  Claim C4, as amended. For every request under \<^verbatim>\<open>networkFirst\<close> whose cache opens
  and whose network fetch fails (it rejects or yields a null response), the fetch has been
  attempted and the executor settles to what the cache lookup gives: the cached response
  if the lookup finds one, the synthetic response if it finds none, and the rejection of
  the lookup if the lookup rejects; which failure the network gave plays no part. Under
  \<^verbatim>\<open>cacheFirst\<close>, when the lookup does not find a response, the fetch is attempted and
  its failure yields the synthetic response. The synthetic response has status 503 and
  status text \<^verbatim>\<open>Service Unavailable\<close>.
\<close>

theorem networkFirst_fallback_by_lookup:
  assumes down: "network P req = Inl e \<or> network P req = Inr None"
    and opens: "caches_open_error P (cacheName cfg) = None"
  shows "fst (networkFirst P cfg req w) =
           (case cache_match P (cacheName cfg) req w of
              Inl e' \<Rightarrow> Inl e'
            | Inr None \<Rightarrow> Inr offline
            | Inr (Some r) \<Rightarrow> Inr r)
       \<and> fetched (snd (networkFirst P cfg req w)) = fetched w @ [req]
       \<and> ((\<forall>r. cache_match P (cacheName cfg) req w \<noteq> Inr (Some r)) \<longrightarrow>
            fst (cacheFirst P cfg req w) = Inr offline
            \<and> fetched (snd (cacheFirst P cfg req w)) = fetched w @ [req])
       \<and> status offline = 503 \<and> statusText offline = ''Service Unavailable''"
  using assms
  by (auto simp: executor_defs offline_def split: option.splits sum.splits)

text \<open>
  With the network down, \<^verbatim>\<open>networkFirst\<close> serves the older copy from the cache where
  there is one, and the synthetic response from an empty cache, as \<^verbatim>\<open>cacheFirst\<close> does.
\<close>

theorem networkFirst_fallback_by_lookup_witness:
  "fst (networkFirst network_down sw_config app_js stale_world) = Inr stale_page
   \<and> fst (networkFirst network_down sw_config app_js fresh_world) = Inr offline
   \<and> fst (cacheFirst network_down sw_config app_js fresh_world) = Inr offline
   \<and> fetched (snd (networkFirst network_down sw_config app_js fresh_world)) = [app_js]"
proof -
  have down: "network network_down app_js = Inl (JsError ''TypeError'' ''Failed to fetch'')
      \<or> network network_down app_js = Inr None"
    by (simp add: network_down_def)
  have opens: "caches_open_error network_down (cacheName sw_config) = None"
    by (simp add: network_down_def online_def)
  have lookups:
    "cache_match network_down (cacheName sw_config) app_js stale_world = Inr (Some stale_page)"
    "cache_match network_down (cacheName sw_config) app_js fresh_world = Inr None"
    by (simp_all add: cache_match_def network_down_def online_def sw_config_def stale_world_def
        fresh_world_def)
  have empty: "fetched fresh_world = []"
    by (simp add: fresh_world_def)
  show ?thesis
    using networkFirst_fallback_by_lookup [OF down opens, of stale_world]
      networkFirst_fallback_by_lookup [OF down opens, of fresh_world]
    by (simp add: lookups empty)
qed

text \<open>
  Claim C1. The claim says that the write of the duplicated response has completed
  before the executor returns. The source calls \<^verbatim>\<open>cache.put\<close> without \<^verbatim>\<open>await\<close>: when
  \<^verbatim>\<open>cacheFirst\<close> returns the page it fetched for an empty cache, the write is still
  pending and a lookup of the same request finds nothing.
\<close>

theorem cacheFirst_returns_before_write_commits:
  "fst (cacheFirst online sw_config app_js fresh_world) = Inr page
   \<and> cache_match online ''locky-1'' app_js (snd (cacheFirst online sw_config app_js fresh_world))
       = Inr None
   \<and> pending (snd (cacheFirst online sw_config app_js fresh_world)) = [(''locky-1'', app_js, page)]"
  by (simp add: executor_defs online_def sw_config_def fresh_world_def log_def)

text \<open>
  Claim C1, as amended. When \<^verbatim>\<open>cacheFirst\<close> (on its miss path) or \<^verbatim>\<open>networkFirst\<close>
  has fetched a response from the network, the write of its duplicate has been started
  before the executor returns, as the newest pending write, and has not completed: a
  lookup of the same request at that moment reads what it read before the request. Once
  the pending writes have settled, and the write did not fail, the lookup yields the
  response.
\<close>

theorem cache_write_started_not_awaited:
  assumes "network P req = Inr (Some r)"
  shows "(fetched (snd (cacheFirst P cfg req w)) \<noteq> fetched w \<longrightarrow>
            fst (cacheFirst P cfg req w) = Inr r
            \<and> pending (snd (cacheFirst P cfg req w)) = pending w @ [(cacheName cfg, req, r)]
            \<and> cache_match P (cacheName cfg) req (snd (cacheFirst P cfg req w))
                = cache_match P (cacheName cfg) req w
            \<and> (cache_put_error P req = None \<and> cache_match_error P req = None \<longrightarrow>
                 cache_match P (cacheName cfg) req (settle_puts P (snd (cacheFirst P cfg req w)))
                   = Inr (Some r)))
       \<and> (fetched (snd (networkFirst P cfg req w)) \<noteq> fetched w \<longrightarrow>
            fst (networkFirst P cfg req w) = Inr r
            \<and> pending (snd (networkFirst P cfg req w)) = pending w @ [(cacheName cfg, req, r)]
            \<and> cache_match P (cacheName cfg) req (snd (networkFirst P cfg req w))
                = cache_match P (cacheName cfg) req w
            \<and> (cache_put_error P req = None \<and> cache_match_error P req = None \<longrightarrow>
                 cache_match P (cacheName cfg) req (settle_puts P (snd (networkFirst P cfg req w)))
                   = Inr (Some r)))"
  using assms
  by (auto simp: executor_defs settle_puts_def commit_puts_newest split: option.splits sum.splits)

theorem cache_write_started_not_awaited_witness:
  "pending (snd (cacheFirst online sw_config app_js fresh_world)) = [(''locky-1'', app_js, page)]
   \<and> cache_match online ''locky-1'' app_js (snd (cacheFirst online sw_config app_js fresh_world))
       = cache_match online ''locky-1'' app_js fresh_world
   \<and> cache_match online ''locky-1'' app_js
         (settle_puts online (snd (cacheFirst online sw_config app_js fresh_world)))
       = Inr (Some page)
   \<and> pending (snd (networkFirst online sw_config app_js fresh_world)) = [(''locky-1'', app_js, page)]"
proof -
  have up: "network online app_js = Inr (Some page)"
    by (simp add: online_def)
  have contacted:
    "fetched (snd (cacheFirst online sw_config app_js fresh_world)) \<noteq> fetched fresh_world"
    "fetched (snd (networkFirst online sw_config app_js fresh_world)) \<noteq> fetched fresh_world"
    by (simp_all add: executor_defs online_def sw_config_def fresh_world_def)
  have healthy: "cache_put_error online app_js = None" "cache_match_error online app_js = None"
    by (simp_all add: online_def)
  have name: "cacheName sw_config = ''locky-1''" "pending fresh_world = []"
    by (simp_all add: sw_config_def fresh_world_def)
  show ?thesis
    using contacted healthy cache_write_started_not_awaited [OF up, of sw_config fresh_world]
    by (simp add: name)
qed

lemma commit_puts_failed:
  "cache_put_error P req \<noteq> None \<Longrightarrow>
   commit_puts P (ps @ [(cache, req, r)]) cs = commit_puts P ps cs"
  by (auto simp: commit_puts_append)

text \<open>
  Claim C7. The claim says that \<^verbatim>\<open>networkFirst\<close> returns the live response whenever
  the network is reachable, and that the cache entry is updated to match. Where the
  cache storage cannot be opened the network is reachable and yet the executor rejects
  and leaves the world as it was; and where the cache write fails, the older copy is
  still the cache entry after the write has settled.
\<close>

theorem networkFirst_stale_when_storage_fails:
  "network storage_denied app_js = Inr (Some page)
   \<and> networkFirst storage_denied sw_config app_js stale_world
       = (Inl (JsError ''SecurityError'' ''The operation is insecure.''), stale_world)
   \<and> network write_denied app_js = Inr (Some page)
   \<and> caches (settle_puts write_denied (snd (networkFirst write_denied sw_config app_js stale_world)))
       ''locky-1'' app_js = Some stale_page"
  by (simp add: executor_defs storage_denied_def write_denied_def online_def sw_config_def
      stale_world_def fresh_world_def settle_puts_def log_def)

text \<open>
  Claim C7, as amended. For every request under \<^verbatim>\<open>networkFirst\<close> whose network
  fetch yields a response: when the cache can be opened, the executor contacts the
  network and returns the live response whatever the cache holds for the request; the
  write of its duplicate is started and left pending, so it does not delay the response
  and the cache is as it was at return, and whether the write fails does not change the
  response; once the pending writes have settled, the cache entry of the request is the
  network response if the write did not fail, and the caches are as if the write had
  never been started if it failed. When the cache cannot be opened, the executor
  rejects with that failure and leaves the world as it was.
\<close>

theorem networkFirst_fresh_when_cache_opens:
  assumes up: "network P req = Inr (Some r)"
  shows "(caches_open_error P (cacheName cfg) = None \<longrightarrow>
            fst (networkFirst P cfg req w) = Inr r
            \<and> fst (networkFirst (P\<lparr>cache_put_error := f\<rparr>) cfg req w) = Inr r
            \<and> fetched (snd (networkFirst P cfg req w)) = fetched w @ [req]
            \<and> pending (snd (networkFirst P cfg req w)) = pending w @ [(cacheName cfg, req, r)]
            \<and> caches (snd (networkFirst P cfg req w)) = caches w
            \<and> (cache_put_error P req = None \<longrightarrow>
                 caches (settle_puts P (snd (networkFirst P cfg req w))) (cacheName cfg) req = Some r)
            \<and> (cache_put_error P req \<noteq> None \<longrightarrow>
                 caches (settle_puts P (snd (networkFirst P cfg req w))) = caches (settle_puts P w)))
       \<and> (caches_open_error P (cacheName cfg) = Some e \<longrightarrow>
            networkFirst P cfg req w = (Inl e, w))"
  using assms
  by (auto simp: executor_defs settle_puts_def commit_puts_newest commit_puts_failed
      split: option.splits sum.splits)

text \<open>
  The cache holds an older copy of \<^verbatim>\<open>/app.js\<close>; the network answers with the current
  page, which is returned and, once the write has settled, replaces the older copy.
\<close>

theorem networkFirst_fresh_when_cache_opens_witness:
  "caches stale_world ''locky-1'' app_js = Some stale_page
   \<and> fst (networkFirst online sw_config app_js stale_world) = Inr page
   \<and> caches (snd (networkFirst online sw_config app_js stale_world)) ''locky-1'' app_js
       = Some stale_page
   \<and> caches (settle_puts online (snd (networkFirst online sw_config app_js stale_world)))
       ''locky-1'' app_js = Some page"
proof -
  have up: "network online app_js = Inr (Some page)"
    by (simp add: online_def)
  have healthy: "caches_open_error online (cacheName sw_config) = None"
    "cache_put_error online app_js = None"
    by (simp_all add: online_def)
  have name: "cacheName sw_config = ''locky-1''"
    by (simp add: sw_config_def)
  have stale: "caches stale_world ''locky-1'' app_js = Some stale_page"
    by (simp add: stale_world_def fresh_world_def)
  show ?thesis
    using stale healthy networkFirst_fresh_when_cache_opens [OF up, of sw_config stale_world]
    by (simp add: name)
qed

text \<open>
  Claim C6. The claim says that two consecutive identical requests under
  \<^verbatim>\<open>cacheFirst\<close> contact the network at most once. A failed fetch stores nothing, so
  with the network down and an empty cache each of the two requests contacts the
  network.
\<close>

theorem cacheFirst_contacts_network_twice_when_offline:
  "fetched (snd (cacheFirst network_down sw_config app_js
      (settle_puts network_down (snd (cacheFirst network_down sw_config app_js fresh_world)))))
    = [app_js, app_js]"
  by (simp add: executor_defs network_down_def online_def sw_config_def fresh_world_def log_def
      settle_puts_def)

text \<open>
  Claim C6, as amended. Where the cache can be opened:
  \<^item> when the lookup finds a response, \<^verbatim>\<open>cacheFirst\<close> returns it without network
    contact, and so does an identical request that follows, whatever the network would
    answer by then;
  \<^item> when the lookup finds nothing, the network yields a response and the cache write
    does not fail, the first request returns that response and contacts the network
    once, and an identical request issued once the pending writes have settled returns
    the same response without network contact, whatever the network would answer by then;
  \<^item> when the lookup finds nothing and the fetch fails, the first request returns the
    synthetic response and starts no write, the cache is as it was, and an identical
    request that follows contacts the network again.
\<close>

theorem cacheFirst_hit_silent_idempotent:
  assumes opens: "caches_open_error P (cacheName cfg) = None"
  shows "(cache_match P (cacheName cfg) req w = Inr (Some r) \<longrightarrow>
            fst (cacheFirst P cfg req w) = Inr r
            \<and> fetched (snd (cacheFirst P cfg req w)) = fetched w
            \<and> fst (cacheFirst (P\<lparr>network := n\<rparr>) cfg req (snd (cacheFirst P cfg req w))) = Inr r
            \<and> fetched (snd (cacheFirst (P\<lparr>network := n\<rparr>) cfg req (snd (cacheFirst P cfg req w))))
                = fetched w)
       \<and> (cache_match P (cacheName cfg) req w = Inr None \<and> network P req = Inr (Some r)
            \<and> cache_put_error P req = None \<longrightarrow>
            fst (cacheFirst P cfg req w) = Inr r
            \<and> fetched (snd (cacheFirst P cfg req w)) = fetched w @ [req]
            \<and> fst (cacheFirst (P\<lparr>network := n\<rparr>) cfg req
                 (settle_puts P (snd (cacheFirst P cfg req w)))) = Inr r
            \<and> fetched (snd (cacheFirst (P\<lparr>network := n\<rparr>) cfg req
                 (settle_puts P (snd (cacheFirst P cfg req w))))) = fetched w @ [req])
       \<and> (cache_match P (cacheName cfg) req w = Inr None
            \<and> (network P req = Inl e \<or> network P req = Inr None) \<longrightarrow>
            fst (cacheFirst P cfg req w) = Inr offline
            \<and> pending (snd (cacheFirst P cfg req w)) = pending w
            \<and> caches (snd (cacheFirst P cfg req w)) = caches w
            \<and> fetched (snd (cacheFirst (P\<lparr>network := n\<rparr>) cfg req (snd (cacheFirst P cfg req w))))
                = fetched w @ [req, req])"
  using assms
  by (auto simp: executor_defs settle_puts_def commit_puts_newest
      split: option.splits sum.splits)

text \<open>
  The first request fetches the page; the second, issued after the write has settled and
  with the network down by then, returns the same page from the cache, and the network
  has been contacted once.
\<close>

theorem cacheFirst_hit_silent_idempotent_witness:
  "fst (cacheFirst online sw_config app_js fresh_world) = Inr page
   \<and> fst (cacheFirst network_down sw_config app_js
          (settle_puts online (snd (cacheFirst online sw_config app_js fresh_world)))) = Inr page
   \<and> fetched (snd (cacheFirst network_down sw_config app_js
          (settle_puts online (snd (cacheFirst online sw_config app_js fresh_world))))) = [app_js]"
proof -
  have opens: "caches_open_error online (cacheName sw_config) = None"
    by (simp add: online_def)
  have miss: "cache_match online (cacheName sw_config) app_js fresh_world = Inr None"
    by (simp add: cache_match_def online_def fresh_world_def)
  have up: "network online app_js = Inr (Some page)" "cache_put_error online app_js = None"
    by (simp_all add: online_def)
  have empty: "fetched fresh_world = []"
    by (simp add: fresh_world_def)
  have down: "network_down = online\<lparr>network := (\<lambda>req. Inl (JsError ''TypeError'' ''Failed to fetch''))\<rparr>"
    by (simp add: network_down_def)
  show ?thesis
    using miss up
      cacheFirst_hit_silent_idempotent [OF opens, of app_js fresh_world page
        "\<lambda>req. Inl (JsError ''TypeError'' ''Failed to fetch'')"]
    by (simp add: down empty)
qed

section \<open>Pre-caching\<close>

lemma reachable_iff:
  "reachable P q \<longleftrightarrow> (\<exists>r. network P q = Inr (Some r) \<and> ok r)"
  by (auto simp: reachable_def split: sum.splits option.splits)

lemma fetch_each_Inr_iff:
  "(\<exists>es. fetch_each P qs = Inr es) \<longleftrightarrow> list_all (reachable P) qs"
proof (induction qs)
  case Nil
  then show ?case by simp
next
  case (Cons q qs)
  show ?case
  proof (cases "reachable P q")
    case True
    then obtain r where "network P q = Inr (Some r)" "ok r"
      using reachable_iff by blast
    then show ?thesis
      using True Cons.IH by (auto split: sum.splits)
  next
    case False
    then have "\<exists>e. fetch_each P (q # qs) = Inl e"
      by (auto simp: reachable_iff split: sum.splits option.splits)
    then show ?thesis
      using False by auto
  qed
qed

lemma fetch_each_keys:
  "fetch_each P qs = Inr es \<Longrightarrow> map fst es = qs"
  by (induction qs arbitrary: es) (auto split: sum.splits option.splits if_splits)

lemma store_all_other:
  "q \<notin> fst ` set es \<Longrightarrow> store_all es m q = m q"
  by (induction es m rule: store_all.induct) auto

lemma store_all_fetched:
  "fetch_each P qs = Inr es \<Longrightarrow> q \<in> set qs \<Longrightarrow> network P q = Inr (Some r) \<Longrightarrow>
   store_all es m q = Some r"
proof (induction qs arbitrary: es m)
  case Nil
  then show ?case by simp
next
  case (Cons q' qs)
  from Cons.prems(1) obtain r' es' where
    net: "network P q' = Inr (Some r')" and rest: "fetch_each P qs = Inr es'"
    and es: "es = (q', r') # es'"
    by (auto split: sum.splits option.splits if_splits)
  show ?case
  proof (cases "q \<in> set qs")
    case True
    then show ?thesis
      using Cons.IH [OF rest True Cons.prems(3)] by (simp add: es)
  next
    case False
    with Cons.prems(2) have "q = q'" by simp
    moreover have "q \<notin> fst ` set es'"
      using False fetch_each_keys [OF rest] by (metis list.set_map)
    ultimately show ?thesis
      using net Cons.prems(3) by (simp add: es store_all_other)
  qed
qed

text \<open>
  Claim C5. The claim says that a failed pre-cache is returned to the caller as an
  error. The \<^verbatim>\<open>catch\<close> block of \<^verbatim>\<open>preCache\<close> logs and returns: with the network
  down no listed resource is reachable, and the promise of \<^verbatim>\<open>preCache\<close> is fulfilled
  all the same.
\<close>

theorem preCache_failure_is_not_returned:
  "\<not> list_all (\<lambda>u. reachable network_down (request_of network_down u)) (precacheFiles sw_config)
   \<and> fst (preCache network_down sw_config fresh_world) = Inr ()"
  by (simp add: preCache_def addAll_def caches_open_def network_down_def online_def
      sw_config_def reachable_def Let_def)

text \<open>
  Claim C5, as amended. The promise of \<^verbatim>\<open>preCache\<close> is always fulfilled. When the
  cache can be opened and every listed resource is reachable, every listed resource is
  stored with the response the network gave for it. Otherwise the operation fails as a
  unit: no cache is changed, and the only trace of the failure is one console line, written
  when logging is enabled.
\<close>

theorem preCache_always_fulfils:
  "fst (preCache P cfg w) = Inr ()
   \<and> (caches_open_error P (cacheName cfg) = None
        \<and> list_all (\<lambda>u. reachable P (request_of P u)) (precacheFiles cfg) \<longrightarrow>
      (\<forall>u \<in> set (precacheFiles cfg). \<exists>r.
          network P (request_of P u) = Inr (Some r)
          \<and> caches (snd (preCache P cfg w)) (cacheName cfg) (request_of P u) = Some r))
   \<and> (\<not> (caches_open_error P (cacheName cfg) = None
           \<and> list_all (\<lambda>u. reachable P (request_of P u)) (precacheFiles cfg)) \<longrightarrow>
      caches (snd (preCache P cfg w)) = caches w
      \<and> (\<exists>e. console (snd (preCache P cfg w)) =
            console w @ (if enableLogging cfg
                         then [''[Service Worker] Pre-caching failed: '' @ error_text e]
                         else [])))"
proof (intro conjI impI)
  show "fst (preCache P cfg w) = Inr ()"
    by (simp add: preCache_def split: sum.splits prod.splits)
next
  assume good: "caches_open_error P (cacheName cfg) = None
      \<and> list_all (\<lambda>u. reachable P (request_of P u)) (precacheFiles cfg)"
  then have "list_all (reachable P) (map (request_of P) (precacheFiles cfg))"
    by (simp add: list_all_iff)
  then obtain es where es: "fetch_each P (map (request_of P) (precacheFiles cfg)) = Inr es"
    using fetch_each_Inr_iff by blast
  show "\<forall>u \<in> set (precacheFiles cfg). \<exists>r.
          network P (request_of P u) = Inr (Some r)
          \<and> caches (snd (preCache P cfg w)) (cacheName cfg) (request_of P u) = Some r"
  proof
    fix u assume u: "u \<in> set (precacheFiles cfg)"
    with good have "reachable P (request_of P u)" by (simp add: list_all_iff)
    then obtain r where r: "network P (request_of P u) = Inr (Some r)"
      using reachable_iff by blast
    have "request_of P u \<in> set (map (request_of P) (precacheFiles cfg))"
      using u by simp
    then have "store_all es (caches w (cacheName cfg)) (request_of P u) = Some r"
      using store_all_fetched [OF es _ r] by blast
    then have "caches (snd (preCache P cfg w)) (cacheName cfg) (request_of P u) = Some r"
      using good es by (simp add: preCache_def addAll_def caches_open_def Let_def)
    with r show "\<exists>r. network P (request_of P u) = Inr (Some r)
          \<and> caches (snd (preCache P cfg w)) (cacheName cfg) (request_of P u) = Some r"
      by blast
  qed
next
  assume bad: "\<not> (caches_open_error P (cacheName cfg) = None
      \<and> list_all (\<lambda>u. reachable P (request_of P u)) (precacheFiles cfg))"
  have failing: "(\<exists>e. caches_open_error P (cacheName cfg) = Some e)
      \<or> (caches_open_error P (cacheName cfg) = None
          \<and> (\<exists>e. fetch_each P (map (request_of P) (precacheFiles cfg)) = Inl e))"
  proof (cases "caches_open_error P (cacheName cfg)")
    case (Some e)
    then show ?thesis by simp
  next
    case None
    with bad have "\<not> list_all (reachable P) (map (request_of P) (precacheFiles cfg))"
      by (simp add: list_all_iff)
    then have "\<exists>e. fetch_each P (map (request_of P) (precacheFiles cfg)) = Inl e"
      using fetch_each_Inr_iff [of P "map (request_of P) (precacheFiles cfg)"]
      by (cases "fetch_each P (map (request_of P) (precacheFiles cfg))") auto
    with None show ?thesis by simp
  qed
  from failing show "caches (snd (preCache P cfg w)) = caches w"
    by (auto simp: preCache_def addAll_def caches_open_def Let_def)
  from failing show "\<exists>e. console (snd (preCache P cfg w)) =
            console w @ (if enableLogging cfg
                         then [''[Service Worker] Pre-caching failed: '' @ error_text e]
                         else [])"
    by (auto simp: preCache_def addAll_def caches_open_def Let_def log_def)
qed

text \<open>
  With the network down and logging disabled, the failed pre-cache leaves the caches and
  the console as they were, and its promise is fulfilled.
\<close>

theorem preCache_always_fulfils_witness:
  "fst (preCache network_down (sw_config\<lparr>enableLogging := False\<rparr>) fresh_world) = Inr ()
   \<and> caches (snd (preCache network_down (sw_config\<lparr>enableLogging := False\<rparr>) fresh_world))
       = caches fresh_world
   \<and> console (snd (preCache network_down (sw_config\<lparr>enableLogging := False\<rparr>) fresh_world)) = []"
proof -
  have bad: "\<not> (caches_open_error network_down (cacheName (sw_config\<lparr>enableLogging := False\<rparr>)) = None
      \<and> list_all (\<lambda>u. reachable network_down (request_of network_down u))
          (precacheFiles (sw_config\<lparr>enableLogging := False\<rparr>)))"
    by (simp add: network_down_def online_def sw_config_def reachable_def)
  show ?thesis
    using bad preCache_always_fulfils [of network_down "sw_config\<lparr>enableLogging := False\<rparr>" fresh_world]
    by (simp add: fresh_world_def)
qed

section \<open>Logging does not interfere\<close>

lemma same_but_console:
  fixes w w' :: world
  shows "w\<lparr>console := c\<rparr> = w'\<lparr>console := c\<rparr> \<longleftrightarrow>
   caches w = caches w' \<and> pending w = pending w' \<and> fetched w = fetched w'"
  by (cases w; cases w') simp

lemma determineStrategy_logging:
  "determineStrategy P (cfg\<lparr>enableLogging := b\<rparr>) req = determineStrategy P cfg req"
  by (simp add: determineStrategy_def Let_def split: option.splits)

lemma fetchAndCache_logging:
  assumes "caches w = caches w'" "pending w = pending w'" "fetched w = fetched w'"
  shows "fst (fetchAndCache P (cfg\<lparr>enableLogging := b\<rparr>) req w) = fst (fetchAndCache P cfg req w')
    \<and> caches (snd (fetchAndCache P (cfg\<lparr>enableLogging := b\<rparr>) req w)) = caches (snd (fetchAndCache P cfg req w'))
    \<and> pending (snd (fetchAndCache P (cfg\<lparr>enableLogging := b\<rparr>) req w)) = pending (snd (fetchAndCache P cfg req w'))
    \<and> fetched (snd (fetchAndCache P (cfg\<lparr>enableLogging := b\<rparr>) req w)) = fetched (snd (fetchAndCache P cfg req w'))"
  using assms
  by (auto simp: fetchAndCache_def caches_open_def cache_put_def fetch_def clone_def
      split: sum.splits option.splits)

lemma cacheFirst_logging:
  assumes "caches w = caches w'" "pending w = pending w'" "fetched w = fetched w'"
  shows "fst (cacheFirst P (cfg\<lparr>enableLogging := b\<rparr>) req w) = fst (cacheFirst P cfg req w')
    \<and> caches (snd (cacheFirst P (cfg\<lparr>enableLogging := b\<rparr>) req w)) = caches (snd (cacheFirst P cfg req w'))
    \<and> pending (snd (cacheFirst P (cfg\<lparr>enableLogging := b\<rparr>) req w)) = pending (snd (cacheFirst P cfg req w'))
    \<and> fetched (snd (cacheFirst P (cfg\<lparr>enableLogging := b\<rparr>) req w)) = fetched (snd (cacheFirst P cfg req w'))"
proof -
  let ?m = "''Cache miss, fetching from network: '' @ url req"
  have miss: "fst (fetchAndCache P (cfg\<lparr>enableLogging := b\<rparr>) req (log (cfg\<lparr>enableLogging := b\<rparr>) ?m w))
        = fst (fetchAndCache P cfg req (log cfg ?m w'))
    \<and> caches (snd (fetchAndCache P (cfg\<lparr>enableLogging := b\<rparr>) req (log (cfg\<lparr>enableLogging := b\<rparr>) ?m w)))
        = caches (snd (fetchAndCache P cfg req (log cfg ?m w')))
    \<and> pending (snd (fetchAndCache P (cfg\<lparr>enableLogging := b\<rparr>) req (log (cfg\<lparr>enableLogging := b\<rparr>) ?m w)))
        = pending (snd (fetchAndCache P cfg req (log cfg ?m w')))
    \<and> fetched (snd (fetchAndCache P (cfg\<lparr>enableLogging := b\<rparr>) req (log (cfg\<lparr>enableLogging := b\<rparr>) ?m w)))
        = fetched (snd (fetchAndCache P cfg req (log cfg ?m w')))"
    by (rule fetchAndCache_logging) (simp_all add: assms)
  show ?thesis
    using assms miss
    by (simp add: cacheFirst_def caches_open_def cache_match_def split: sum.splits option.splits)
qed

lemma networkFirst_logging:
  assumes "caches w = caches w'" "pending w = pending w'" "fetched w = fetched w'"
  shows "fst (networkFirst P (cfg\<lparr>enableLogging := b\<rparr>) req w) = fst (networkFirst P cfg req w')
    \<and> caches (snd (networkFirst P (cfg\<lparr>enableLogging := b\<rparr>) req w)) = caches (snd (networkFirst P cfg req w'))
    \<and> pending (snd (networkFirst P (cfg\<lparr>enableLogging := b\<rparr>) req w)) = pending (snd (networkFirst P cfg req w'))
    \<and> fetched (snd (networkFirst P (cfg\<lparr>enableLogging := b\<rparr>) req w)) = fetched (snd (networkFirst P cfg req w'))"
  using assms
  by (auto simp: networkFirst_def networkFirst_catch_def caches_open_def cache_match_def
      cache_put_def fetch_def clone_def Let_def split: sum.splits option.splits)

lemma fetch_listener_logging:
  "fst (fetch_listener P (cfg\<lparr>enableLogging := b\<rparr>) req w) = fst (fetch_listener P cfg req w)
    \<and> caches (snd (fetch_listener P (cfg\<lparr>enableLogging := b\<rparr>) req w)) = caches (snd (fetch_listener P cfg req w))
    \<and> pending (snd (fetch_listener P (cfg\<lparr>enableLogging := b\<rparr>) req w)) = pending (snd (fetch_listener P cfg req w))
    \<and> fetched (snd (fetch_listener P (cfg\<lparr>enableLogging := b\<rparr>) req w)) = fetched (snd (fetch_listener P cfg req w))"
proof -
  have cf: "fst (cacheFirst P (cfg\<lparr>enableLogging := b\<rparr>) req (log (cfg\<lparr>enableLogging := b\<rparr>) m w))
        = fst (cacheFirst P cfg req (log cfg m w))
    \<and> caches (snd (cacheFirst P (cfg\<lparr>enableLogging := b\<rparr>) req (log (cfg\<lparr>enableLogging := b\<rparr>) m w)))
        = caches (snd (cacheFirst P cfg req (log cfg m w)))
    \<and> pending (snd (cacheFirst P (cfg\<lparr>enableLogging := b\<rparr>) req (log (cfg\<lparr>enableLogging := b\<rparr>) m w)))
        = pending (snd (cacheFirst P cfg req (log cfg m w)))
    \<and> fetched (snd (cacheFirst P (cfg\<lparr>enableLogging := b\<rparr>) req (log (cfg\<lparr>enableLogging := b\<rparr>) m w)))
        = fetched (snd (cacheFirst P cfg req (log cfg m w)))" for m
    by (rule cacheFirst_logging) simp_all
  have nf: "fst (networkFirst P (cfg\<lparr>enableLogging := b\<rparr>) req (log (cfg\<lparr>enableLogging := b\<rparr>) m w))
        = fst (networkFirst P cfg req (log cfg m w))
    \<and> caches (snd (networkFirst P (cfg\<lparr>enableLogging := b\<rparr>) req (log (cfg\<lparr>enableLogging := b\<rparr>) m w)))
        = caches (snd (networkFirst P cfg req (log cfg m w)))
    \<and> pending (snd (networkFirst P (cfg\<lparr>enableLogging := b\<rparr>) req (log (cfg\<lparr>enableLogging := b\<rparr>) m w)))
        = pending (snd (networkFirst P cfg req (log cfg m w)))
    \<and> fetched (snd (networkFirst P (cfg\<lparr>enableLogging := b\<rparr>) req (log (cfg\<lparr>enableLogging := b\<rparr>) m w)))
        = fetched (snd (networkFirst P cfg req (log cfg m w)))" for m
    by (rule networkFirst_logging) simp_all
  show ?thesis
    by (simp add: fetch_listener_def determineStrategy_logging respondWith_def Let_def fetch_def
        cf nf)
qed

text \<open>
  Claim C10. For every request and every fixed environment, the resolved strategy and
  what \<^verbatim>\<open>cacheFirst\<close>, \<^verbatim>\<open>networkFirst\<close> and the \<^verbatim>\<open>fetch\<close> listener settle to are
  the same with logging enabled and disabled, and the worlds they leave behind differ in
  the console only.
\<close>

theorem logging_noninterference:
  "determineStrategy P (cfg\<lparr>enableLogging := True\<rparr>) req
     = determineStrategy P (cfg\<lparr>enableLogging := False\<rparr>) req
   \<and> fst (cacheFirst P (cfg\<lparr>enableLogging := True\<rparr>) req w)
     = fst (cacheFirst P (cfg\<lparr>enableLogging := False\<rparr>) req w)
   \<and> fst (networkFirst P (cfg\<lparr>enableLogging := True\<rparr>) req w)
     = fst (networkFirst P (cfg\<lparr>enableLogging := False\<rparr>) req w)
   \<and> fst (fetch_listener P (cfg\<lparr>enableLogging := True\<rparr>) req w)
     = fst (fetch_listener P (cfg\<lparr>enableLogging := False\<rparr>) req w)
   \<and> (snd (cacheFirst P (cfg\<lparr>enableLogging := True\<rparr>) req w))\<lparr>console := c\<rparr>
     = (snd (cacheFirst P (cfg\<lparr>enableLogging := False\<rparr>) req w))\<lparr>console := c\<rparr>
   \<and> (snd (networkFirst P (cfg\<lparr>enableLogging := True\<rparr>) req w))\<lparr>console := c\<rparr>
     = (snd (networkFirst P (cfg\<lparr>enableLogging := False\<rparr>) req w))\<lparr>console := c\<rparr>
   \<and> (snd (fetch_listener P (cfg\<lparr>enableLogging := True\<rparr>) req w))\<lparr>console := c\<rparr>
     = (snd (fetch_listener P (cfg\<lparr>enableLogging := False\<rparr>) req w))\<lparr>console := c\<rparr>"
  using cacheFirst_logging [OF refl refl refl, where b = True and w = w and cfg = cfg and P = P and req = req]
    cacheFirst_logging [OF refl refl refl, where b = False and w = w and cfg = cfg and P = P and req = req]
    networkFirst_logging [OF refl refl refl, where b = True and w = w and cfg = cfg and P = P and req = req]
    networkFirst_logging [OF refl refl refl, where b = False and w = w and cfg = cfg and P = P and req = req]
    fetch_listener_logging [where b = True and w = w and cfg = cfg and P = P and req = req]
    fetch_listener_logging [where b = False and w = w and cfg = cfg and P = P and req = req]
  by (simp add: same_but_console determineStrategy_logging)

section \<open>Lifecycle\<close>

lemma lifecycle_run_snoc:
  "lifecycle_run P cfg (evs @ [ev]) w = lifecycle_step P cfg (lifecycle_run P cfg evs w) ev"
  by (simp add: lifecycle_run_def)

lemma precache_settled_in_snoc:
  assumes "precache_settled_in P cfg w evs"
  shows "precache_settled_in P cfg w (evs @ [ev])"
proof -
  from assms obtain pre post where split: "evs = pre @ Settle # post"
    and rest: "phase (lifecycle_run P cfg pre w) = Installing"
      "lifetime (lifecycle_run P cfg pre w) = [PreCachePromise]"
      "sw_world (lifecycle_run P cfg (pre @ [Settle]) w)
         = snd (preCache P cfg (sw_world (lifecycle_run P cfg pre w)))"
    unfolding precache_settled_in_def by blast
  from split have "evs @ [ev] = pre @ Settle # (post @ [ev])"
    by simp
  with rest show ?thesis
    unfolding precache_settled_in_def by blast
qed

lemma claim_settled_in_snoc:
  assumes "claim_settled_in P cfg w evs"
  shows "claim_settled_in P cfg w (evs @ [ev])"
proof -
  from assms obtain pre post where split: "evs = pre @ Settle # post"
    and rest: "phase (lifecycle_run P cfg pre w) = Activating"
      "lifetime (lifecycle_run P cfg pre w) = [ClaimPromise]"
    unfolding claim_settled_in_def by blast
  from split have "evs @ [ev] = pre @ Settle # (post @ [ev])"
    by simp
  with rest show ?thesis
    unfolding claim_settled_in_def by blast
qed

lemma precache_settles:
  assumes "phase (lifecycle_run P cfg evs w) = Installing"
    and "lifetime (lifecycle_run P cfg evs w) = [PreCachePromise]"
  shows "precache_settled_in P cfg w (evs @ [Settle])"
proof -
  have "sw_world (lifecycle_run P cfg (evs @ [Settle]) w)
      = snd (preCache P cfg (sw_world (lifecycle_run P cfg evs w)))"
    using assms by (simp add: lifecycle_run_snoc settle_promise_def)
  with assms show ?thesis
    unfolding precache_settled_in_def by blast
qed

lemma claim_settles:
  assumes "phase (lifecycle_run P cfg evs w) = Activating"
    and "lifetime (lifecycle_run P cfg evs w) = [ClaimPromise]"
  shows "claim_settled_in P cfg w (evs @ [Settle])"
  using assms unfolding claim_settled_in_def by blast

text \<open>
  What every run maintains, phase by phase: the skip-waiting flag is set from the
  \<^verbatim>\<open>install\<close> listener on; while installing, the promise of \<^verbatim>\<open>preCache()\<close> is the one
  outstanding promise or has settled during installation; while activating, the promise
  of \<^verbatim>\<open>clients.claim()\<close> is the one outstanding promise or has settled during
  activation.
\<close>

lemma lifecycle_history:
  "(case phase (lifecycle_run P cfg evs w) of
      Parsed \<Rightarrow> lifetime (lifecycle_run P cfg evs w) = []
    | Installing \<Rightarrow>
        skip_waiting (lifecycle_run P cfg evs w)
        \<and> (lifetime (lifecycle_run P cfg evs w) = [PreCachePromise]
            \<or> lifetime (lifecycle_run P cfg evs w) = [] \<and> precache_settled_in P cfg w evs)
    | Installed \<Rightarrow>
        skip_waiting (lifecycle_run P cfg evs w)
        \<and> lifetime (lifecycle_run P cfg evs w) = []
        \<and> precache_settled_in P cfg w evs
    | Activating \<Rightarrow>
        skip_waiting (lifecycle_run P cfg evs w)
        \<and> precache_settled_in P cfg w evs
        \<and> (lifetime (lifecycle_run P cfg evs w) = [ClaimPromise]
            \<or> lifetime (lifecycle_run P cfg evs w) = []
               \<and> claimed (lifecycle_run P cfg evs w) \<and> claim_settled_in P cfg w evs)
    | Activated \<Rightarrow>
        skip_waiting (lifecycle_run P cfg evs w)
        \<and> precache_settled_in P cfg w evs
        \<and> lifetime (lifecycle_run P cfg evs w) = []
        \<and> claimed (lifecycle_run P cfg evs w)
        \<and> claim_settled_in P cfg w evs)"
proof (induction evs rule: rev_induct)
  case Nil
  then show ?case
    by (simp add: lifecycle_run_def new_worker_def)
next
  case (snoc ev evs)
  define wk where "wk = lifecycle_run P cfg evs w"
  note IH = snoc.IH [folded wk_def]
  have keep: "precache_settled_in P cfg w evs \<Longrightarrow> precache_settled_in P cfg w (evs @ [ev])"
    "claim_settled_in P cfg w evs \<Longrightarrow> claim_settled_in P cfg w (evs @ [ev])"
    by (simp_all add: precache_settled_in_snoc claim_settled_in_snoc)
  have now: "phase wk = Installing \<Longrightarrow> lifetime wk = [PreCachePromise] \<Longrightarrow> ev = Settle \<Longrightarrow>
      precache_settled_in P cfg w (evs @ [ev])"
    "phase wk = Activating \<Longrightarrow> lifetime wk = [ClaimPromise] \<Longrightarrow> ev = Settle \<Longrightarrow>
      claim_settled_in P cfg w (evs @ [ev])"
    by (simp_all add: wk_def precache_settles claim_settles)
  show ?case
    unfolding lifecycle_run_snoc wk_def [symmetric]
    using IH keep now
    by (cases ev; cases "phase wk")
      (auto simp: install_listener_def activate_listener_def settle_promise_def
        split: list.splits)
qed

text \<open>
  Claim C8. For every environment, configuration and initial world: the \<^verbatim>\<open>install\<close>
  listener leaves the promise of \<^verbatim>\<open>preCache()\<close> as the one outstanding promise of the
  install event and sets the skip-waiting flag at once; installation does not end while
  that promise is outstanding, and ends once it has settled; activation of the installed
  worker then starts without waiting for an older worker to go, and the \<^verbatim>\<open>activate\<close>
  listener leaves the promise of \<^verbatim>\<open>clients.claim()\<close> outstanding; once it has settled
  the worker becomes activated and controls the open pages. And in every state that any
  sequence of events reaches: if installation has ended, the promise of \<^verbatim>\<open>preCache()\<close>
  settled while the worker was installing, which ran \<^verbatim>\<open>preCache\<close> on the world; the
  skip-waiting flag is set from the \<^verbatim>\<open>install\<close> event on; and an activated worker
  controls the open pages, the promise of \<^verbatim>\<open>clients.claim()\<close> having settled while it
  was activating, so that the next request of an open page runs the \<^verbatim>\<open>fetch\<close>
  listener.
\<close>

theorem lifecycle_install_waits_then_claims:
  assumes "wk = lifecycle_run P cfg evs w"
  shows "phase (lifecycle_run P cfg [DispatchInstall] w) = Installing
       \<and> lifetime (lifecycle_run P cfg [DispatchInstall] w) = [PreCachePromise]
       \<and> skip_waiting (lifecycle_run P cfg [DispatchInstall] w)
       \<and> phase (lifecycle_run P cfg [DispatchInstall, FinishInstall] w) = Installing
       \<and> phase (lifecycle_run P cfg [DispatchInstall, Settle, FinishInstall] w) = Installed
       \<and> sw_world (lifecycle_run P cfg [DispatchInstall, Settle, FinishInstall] w)
           = snd (preCache P cfg (log cfg ''Install event triggered.'' w))
       \<and> phase (lifecycle_run P cfg
             [DispatchInstall, Settle, FinishInstall, DispatchActivate False] w) = Activating
       \<and> lifetime (lifecycle_run P cfg
             [DispatchInstall, Settle, FinishInstall, DispatchActivate False] w) = [ClaimPromise]
       \<and> phase (lifecycle_run P cfg
             [DispatchInstall, Settle, FinishInstall, DispatchActivate False, Settle,
              FinishActivate] w) = Activated
       \<and> (phase wk = Installed \<or> phase wk = Activating \<or> phase wk = Activated \<longrightarrow>
            (\<exists>pre post. evs = pre @ Settle # post
               \<and> phase (lifecycle_run P cfg pre w) = Installing
               \<and> lifetime (lifecycle_run P cfg pre w) = [PreCachePromise]
               \<and> sw_world (lifecycle_run P cfg (pre @ [Settle]) w)
                   = snd (preCache P cfg (sw_world (lifecycle_run P cfg pre w)))))
       \<and> (phase wk \<noteq> Parsed \<longrightarrow> skip_waiting wk)
       \<and> (phase wk = Installed \<longrightarrow>
            phase (lifecycle_step P cfg wk (DispatchActivate False)) = Activating)
       \<and> (phase wk = Activated \<longrightarrow>
            claimed wk
            \<and> (\<exists>pre post. evs = pre @ Settle # post
                 \<and> phase (lifecycle_run P cfg pre w) = Activating
                 \<and> lifetime (lifecycle_run P cfg pre w) = [ClaimPromise])
            \<and> lifecycle_step P cfg wk (PageRequest req)
                = wk\<lparr>sw_world := snd (fetch_listener P cfg req (sw_world wk))\<rparr>)"
proof -
  have canonical:
    "phase (lifecycle_run P cfg [DispatchInstall] w) = Installing
     \<and> lifetime (lifecycle_run P cfg [DispatchInstall] w) = [PreCachePromise]
     \<and> skip_waiting (lifecycle_run P cfg [DispatchInstall] w)
     \<and> phase (lifecycle_run P cfg [DispatchInstall, FinishInstall] w) = Installing
     \<and> phase (lifecycle_run P cfg [DispatchInstall, Settle, FinishInstall] w) = Installed
     \<and> sw_world (lifecycle_run P cfg [DispatchInstall, Settle, FinishInstall] w)
         = snd (preCache P cfg (log cfg ''Install event triggered.'' w))
     \<and> phase (lifecycle_run P cfg
           [DispatchInstall, Settle, FinishInstall, DispatchActivate False] w) = Activating
     \<and> lifetime (lifecycle_run P cfg
           [DispatchInstall, Settle, FinishInstall, DispatchActivate False] w) = [ClaimPromise]
     \<and> phase (lifecycle_run P cfg
           [DispatchInstall, Settle, FinishInstall, DispatchActivate False, Settle,
            FinishActivate] w) = Activated"
    by (simp add: lifecycle_run_def new_worker_def install_listener_def activate_listener_def
        settle_promise_def)
  have history:
    "(phase wk = Installed \<or> phase wk = Activating \<or> phase wk = Activated \<longrightarrow>
        precache_settled_in P cfg w evs)
     \<and> (phase wk \<noteq> Parsed \<longrightarrow> skip_waiting wk)
     \<and> (phase wk = Installed \<longrightarrow>
          phase (lifecycle_step P cfg wk (DispatchActivate False)) = Activating)
     \<and> (phase wk = Activated \<longrightarrow>
          claimed wk \<and> claim_settled_in P cfg w evs
          \<and> lifecycle_step P cfg wk (PageRequest req)
              = wk\<lparr>sw_world := snd (fetch_listener P cfg req (sw_world wk))\<rparr>)"
    using lifecycle_history [of P cfg evs w] assms
    by (cases "phase wk") (auto simp: activate_listener_def)
  from canonical history show ?thesis
    unfolding precache_settled_in_def claim_settled_in_def by blast
qed

text \<open>
  A full run in the healthy sample environment: install, \<^verbatim>\<open>preCache\<close> settles,
  installation ends, activation starts while an older worker is still around,
  \<^verbatim>\<open>clients.claim()\<close> settles, activation ends. The worker is activated and controls the
  open pages, and the cache holds the \<^verbatim>\<open>/app.js\<close> that \<^verbatim>\<open>preCache\<close> stored.
\<close>

theorem lifecycle_install_waits_then_claims_witness:
  "phase (lifecycle_run online sw_config
       [DispatchInstall, Settle, FinishInstall, DispatchActivate False, Settle, FinishActivate]
       fresh_world) = Activated
   \<and> skip_waiting (lifecycle_run online sw_config
       [DispatchInstall, Settle, FinishInstall, DispatchActivate False, Settle, FinishActivate]
       fresh_world)
   \<and> claimed (lifecycle_run online sw_config
       [DispatchInstall, Settle, FinishInstall, DispatchActivate False, Settle, FinishActivate]
       fresh_world)
   \<and> caches (sw_world (lifecycle_run online sw_config
       [DispatchInstall, Settle, FinishInstall, DispatchActivate False, Settle, FinishActivate]
       fresh_world)) ''locky-1'' app_js = Some page"
proof -
  let ?wk = "lifecycle_run online sw_config
       [DispatchInstall, Settle, FinishInstall, DispatchActivate False, Settle, FinishActivate]
       fresh_world"
  have stored: "caches (snd (preCache online sw_config w)) ''locky-1'' app_js = Some page" for w
    by (simp add: preCache_def addAll_def caches_open_def request_of_def sample_resolve_def
        online_def sw_config_def app_js_def ok_def page_def Let_def)
  have world: "caches (sw_world ?wk) ''locky-1'' app_js = Some page"
    by (simp add: lifecycle_run_def new_worker_def install_listener_def activate_listener_def
        settle_promise_def stored)
  show ?thesis
    using world lifecycle_install_waits_then_claims [OF refl, where P = online
        and cfg = sw_config and w = fresh_world and evs =
        "[DispatchInstall, Settle, FinishInstall, DispatchActivate False, Settle, FinishActivate]"]
    by simp
qed

end
